theory Spec2Isabelle
  imports Complex_Main
begin

section \<open>JavaScript values the client works with\<close>

text \<open>
  The client is a React application (\<^verbatim>\<open>frontend/src\<close>). Its functions are embedded as
  HOL functions over explicit state. An exception of the source is a value of
  \<open>js_error\<close> on the left of a sum; an \<^verbatim>\<open>async\<close> function that rejects is modelled
  as returning \<open>Inl\<close>.
\<close>

datatype js_error =
    SyntaxError
  | TypeError
  | Error string

text \<open>
  A text handed to \<^verbatim>\<open>JSON.parse\<close> is represented by what the platform's parser makes of
  it: \<open>Json v\<close> is a text that is the JSON notation of the value \<open>v\<close>, \<open>NotJson s\<close>
  is the string \<open>s\<close> when it is not JSON notation (the empty string among them).
  \<^verbatim>\<open>JSON.stringify\<close> writes the notation of a value. The values are typed: a text that
  is the notation of a value of another shape than the reader expects (a stored cart
  that is JSON but no list of items) is not represented.
\<close>

datatype 'a js_text = Json 'a | NotJson string

definition JSON_parse :: "'a js_text \<Rightarrow> js_error + 'a" where
  "JSON_parse t = (case t of Json v \<Rightarrow> Inr v | NotJson s \<Rightarrow> Inl SyntaxError)"

definition JSON_stringify :: "'a \<Rightarrow> 'a js_text" where
  "JSON_stringify v = Json v"

text \<open>A string is falsy exactly when it is empty; the notation of a value never is.\<close>

definition truthy_text :: "'a js_text \<Rightarrow> bool" where
  "truthy_text t = (case t of Json v \<Rightarrow> True | NotJson s \<Rightarrow> s \<noteq> [])"

text \<open>
  \<^verbatim>\<open>localStorage.getItem\<close> gives \<^verbatim>\<open>null\<close> (\<open>None\<close>) or a string; \<^verbatim>\<open>!t\<close> holds for
  \<^verbatim>\<open>null\<close> and for the empty string.
\<close>

definition truthy_token :: "string option \<Rightarrow> bool" where
  "truthy_token t = (case t of None \<Rightarrow> False | Some s \<Rightarrow> s \<noteq> [])"

text \<open>
  The values \<^verbatim>\<open>JSON.parse\<close> produces. An object is the list of its members in the order
  of the text; of members with the same key the last one counts. Numbers are kept as
  rationals: only their being zero is ever inspected.
\<close>

datatype json =
    JNull
  | JBool bool
  | JNum rat
  | JStr string
  | JArr "json list"
  | JObj "(string \<times> json) list"

text \<open>What \<^verbatim>\<open>v || d\<close> and \<^verbatim>\<open>!v\<close> test.\<close>

fun truthy :: "json \<Rightarrow> bool" where
  "truthy JNull = False"
| "truthy (JBool b) = b"
| "truthy (JNum n) = (n \<noteq> 0)"
| "truthy (JStr s) = (s \<noteq> [])"
| "truthy (JArr xs) = True"
| "truthy (JObj ms) = True"

text \<open>
  \<^verbatim>\<open>v.key\<close>: a TypeError on \<^verbatim>\<open>null\<close>, the member of an object when it has one, and
  \<^verbatim>\<open>undefined\<close> (\<open>None\<close>) otherwise.
\<close>

fun get_member :: "json \<Rightarrow> string \<Rightarrow> js_error + json option" where
  "get_member JNull key = Inl TypeError"
| "get_member (JObj ms) key = Inr (map_of (rev ms) key)"
| "get_member v key = Inr None"

text \<open>
  Template literals print a number in decimal (integers below \<open>10\<^sup>2\<^sup>1\<close> in magnitude,
  which status codes and order ids are, without an exponent). \<open>show_nat\<close> prints a
  natural number, \<open>show_int\<close> an integer, \<open>read_nat\<close> reads decimal digits back.
\<close>

definition digit :: "nat \<Rightarrow> char" where
  "digit d = ''0123456789'' ! d"

fun show_nat :: "nat \<Rightarrow> string" where
  "show_nat n = (if n < 10 then [digit n] else show_nat (n div 10) @ [digit (n mod 10)])"

declare show_nat.simps [simp del]

definition show_int :: "int \<Rightarrow> string" where
  "show_int i = (if i < 0 then CHR ''-'' # show_nat (nat (- i)) else show_nat (nat i))"

definition digit_value :: "char \<Rightarrow> nat option" where
  "digit_value c = map_of (zip ''0123456789'' [0 ..< 10]) c"

fun read_digits :: "nat \<Rightarrow> string \<Rightarrow> nat option" where
  "read_digits acc [] = Some acc"
| "read_digits acc (c # cs) =
     (case digit_value c of None \<Rightarrow> None | Some d \<Rightarrow> read_digits (10 * acc + d) cs)"

definition read_nat :: "string \<Rightarrow> nat option" where
  "read_nat s = (if s = [] then None else read_digits 0 s)"

text \<open>
  \<^verbatim>\<open>String(err)\<close> for an \<^verbatim>\<open>Error\<close> built by the client. The message text of the
  platform's own SyntaxError and TypeError differs between engines and is left out.
\<close>

fun String_of_error :: "js_error \<Rightarrow> string" where
  "String_of_error (Error m) = (if m = [] then ''Error'' else ''Error: '' @ m)"
| "String_of_error SyntaxError = ''SyntaxError''"
| "String_of_error TypeError = ''TypeError''"

section \<open>The browser\<close>

text \<open>An entry of the cart, in the shape both the local and the merged cart use.\<close>

record cart_item =
  product_id :: int
  quantity :: int
  name :: string
  price :: rat

text \<open>
  The window's ambient state: the two \<^verbatim>\<open>localStorage\<close> keys the client uses, the
  current location, the table of live \<^verbatim>\<open>setInterval\<close> timers and the next timer
  handle the platform hands out.
\<close>

record browser =
  token_entry :: "string option"
  cart_entry :: "cart_item list js_text option"
  url :: string
  intervals :: "nat list"
  next_handle :: nat

text \<open>
  \<^verbatim>\<open>setInterval\<close> arms a timer under a fresh handle; \<^verbatim>\<open>clearInterval\<close> disarms the
  timer of a handle and does nothing for \<^verbatim>\<open>null\<close> or a handle that is not live.
\<close>

definition setInterval :: "browser \<Rightarrow> nat \<times> browser" where
  "setInterval b =
     (next_handle b,
      b\<lparr>intervals := intervals b @ [next_handle b], next_handle := Suc (next_handle b)\<rparr>)"

definition clearInterval :: "nat option \<Rightarrow> browser \<Rightarrow> browser" where
  "clearInterval h b =
     (case h of None \<Rightarrow> b | Some i \<Rightarrow> b\<lparr>intervals := removeAll i (intervals b)\<rparr>)"

text \<open>\<^verbatim>\<open>if (pollRef.current)\<close>: a handle is truthy unless it is \<^verbatim>\<open>null\<close> or \<open>0\<close>.\<close>

definition truthy_handle :: "nat option \<Rightarrow> bool" where
  "truthy_handle h = (case h of None \<Rightarrow> False | Some i \<Rightarrow> i \<noteq> 0)"

text \<open>
  The response of \<^verbatim>\<open>fetch\<close>: its status code and what reading its body settles to, a
  text or a failure. \<^verbatim>\<open>r.ok\<close> holds for the statuses 200 to 299.
\<close>

record 'v response =
  status :: nat
  body_text :: "js_error + 'v js_text"

definition ok :: "'v response \<Rightarrow> bool" where
  "ok r = (200 \<le> status r \<and> status r \<le> 299)"

section \<open>Session guard: \<^verbatim>\<open>utils/auth.js\<close> and the liveness interval of \<^verbatim>\<open>App.jsx\<close>\<close>

definition getToken :: "browser \<Rightarrow> string option" where
  "getToken b = token_entry b"

definition clearAuth :: "browser \<Rightarrow> browser" where
  "clearAuth b = b\<lparr>token_entry := None\<rparr>"

text \<open>\<^verbatim>\<open>token.split('.')\<close>: the pieces between the separators; one piece more than separators.\<close>

fun js_split :: "char \<Rightarrow> string \<Rightarrow> string list" where
  "js_split sep [] = [[]]"
| "js_split sep (c # cs) =
     (if c = sep then [] # js_split sep cs
      else (case js_split sep cs of
              [] \<Rightarrow> [[c]]
            | p # ps \<Rightarrow> (c # p) # ps))"

text \<open>\<^verbatim>\<open>payload.replace(/-/g, '+').replace(/_/g, '/')\<close>\<close>

definition url_to_base64 :: "string \<Rightarrow> string" where
  "url_to_base64 payload =
     map (\<lambda>c. if c = CHR ''_'' then CHR ''/'' else c)
       (map (\<lambda>c. if c = CHR ''-'' then CHR ''+'' else c) payload)"

text \<open>
  The claims of a token, as far as the client reads them: \<open>exp_claim\<close> is \<open>None\<close> when
  the payload has no \<^verbatim>\<open>exp\<close> member (seconds since the epoch otherwise), and likewise
  \<open>role_claim\<close>.
\<close>

record claims =
  exp_claim :: "int option"
  role_claim :: "string option"

text \<open>
  \<^verbatim>\<open>parseJwt\<close>. The platform's decoding chain
  \<^verbatim>\<open>JSON.parse(decodeURIComponent(escape(atob(s))))\<close> is the parameter \<open>decode\<close>:
  \<open>Inl\<close> when one of its steps throws, \<open>Inr None\<close> when the payload is the JSON
  \<^verbatim>\<open>null\<close> or another falsy value, \<open>Inr (Some c)\<close> otherwise. Whatever is thrown inside the
  \<^verbatim>\<open>try\<close> gives \<^verbatim>\<open>null\<close>.
\<close>

definition parseJwt :: "(string \<Rightarrow> js_error + claims option) \<Rightarrow> string \<Rightarrow> claims option" where
  "parseJwt decode token =
     (let parts = js_split CHR ''.'' token in
      if length parts \<noteq> 3 then None
      else (let payload = parts ! 1 in
            case decode (url_to_base64 payload) of
              Inl err \<Rightarrow> None
            | Inr c \<Rightarrow> c))"

text \<open>
  \<^verbatim>\<open>isTokenValid\<close>. \<open>now\<close> is \<^verbatim>\<open>Date.now()\<close>, the milliseconds elapsed since the
  epoch. \<^verbatim>\<open>!claims.exp\<close> holds when there is no \<^verbatim>\<open>exp\<close> and when it is \<open>0\<close>.
\<close>

definition isTokenValid :: "(string \<Rightarrow> js_error + claims option) \<Rightarrow> nat \<Rightarrow> string option \<Rightarrow> bool" where
  "isTokenValid decode now token =
     (case token of
        None \<Rightarrow> False
      | Some t \<Rightarrow>
          if t = [] then False
          else (case parseJwt decode t of
                  None \<Rightarrow> False
                | Some c \<Rightarrow>
                    (case exp_claim c of
                       None \<Rightarrow> False
                     | Some e \<Rightarrow>
                         if e = 0 then False
                         else (let exp_ms = e * 1000 in int now < exp_ms))))"

text \<open>The state of the \<^verbatim>\<open>App\<close> component.\<close>

record app =
  token_state :: "string option"
  expiresIn :: "int option"

text \<open>
  \<^verbatim>\<open>logout\<close>: the credential is removed, the component's token is reset, the current
  history entry is replaced by \<^verbatim>\<open>/login\<close> and the router goes there.
\<close>

definition logout :: "browser \<times> app \<Rightarrow> browser \<times> app" where
  "logout w =
     (case w of (b, a) \<Rightarrow>
        (let b1 = clearAuth b;
             a1 = a\<lparr>token_state := None\<rparr>;
             b2 = b1\<lparr>url := ''/login''\<rparr>
         in (b2\<lparr>url := ''/login''\<rparr>, a1)))"

text \<open>The callback of the 5000 ms interval armed by \<^verbatim>\<open>App\<close>'s effect.\<close>

definition liveness_tick ::
  "(string \<Rightarrow> js_error + claims option) \<Rightarrow> nat \<Rightarrow> browser \<times> app \<Rightarrow> browser \<times> app" where
  "liveness_tick decode now w =
     (case w of (b, a) \<Rightarrow>
        (let t = getToken b in
         if \<not> truthy_token t then (b, a)
         else if \<not> isTokenValid decode now t then logout (b, a)
         else (b, a)))"

text \<open>
  What the platform's decoding chain makes of the payloads of the examples:
  \<^verbatim>\<open>eyJleHAiOjEwMH0\<close> is the base64 text of \<^verbatim>\<open>{"exp":100}\<close> and \<^verbatim>\<open>e30\<close> that of
  \<^verbatim>\<open>{}\<close>; the only other payload the examples decode, \<^verbatim>\<open>%%\<close>, is outside the base64
  alphabet, where \<^verbatim>\<open>atob\<close> throws.
\<close>

definition decode_example :: "string \<Rightarrow> js_error + claims option" where
  "decode_example s =
     (if s = ''eyJleHAiOjEwMH0'' then Inr (Some \<lparr>exp_claim = Some 100, role_claim = None\<rparr>)
      else if s = ''e30'' then Inr (Some \<lparr>exp_claim = None, role_claim = None\<rparr>)
      else Inl (Error ''InvalidCharacterError''))"

section \<open>Cart: browser storage, the merge of \<^verbatim>\<open>load\<close>, adding to the cart\<close>

text \<open>
  \<^verbatim>\<open>JSON.parse(localStorage.getItem("cart") || "[]")\<close>, and the stored carts it can
  read: no entry, the empty string, or the JSON notation of a list of items.
\<close>

definition readable_cart :: "browser \<Rightarrow> bool" where
  "readable_cart b =
     (case cart_entry b of
        None \<Rightarrow> True
      | Some t \<Rightarrow> (case t of Json xs \<Rightarrow> True | NotJson s \<Rightarrow> s = []))"

definition local_cart :: "browser \<Rightarrow> js_error + cart_item list" where
  "local_cart b =
     JSON_parse (case cart_entry b of
                   None \<Rightarrow> Json []
                 | Some t \<Rightarrow> if truthy_text t then t else Json [])"

text \<open>The arrow function that copies a server item into the local shape, field by field.\<close>

definition local_shape :: "'a cart_item_scheme \<Rightarrow> cart_item" where
  "local_shape it =
     \<lparr>product_id = product_id it, quantity = quantity it, name = name it, price = price it\<rparr>"

text \<open>
  The loop \<^verbatim>\<open>for (const li of local) if (!serverIds.has(li.product_id)) merged.push(li)\<close>
  of \<^verbatim>\<open>pages/Cart.jsx\<close>, with \<open>merged\<close> as the accumulator.
\<close>

fun push_local :: "int set \<Rightarrow> cart_item list \<Rightarrow> cart_item list \<Rightarrow> cart_item list" where
  "push_local serverIds merged [] = merged"
| "push_local serverIds merged (li # rest) =
     push_local serverIds
       (if product_id li \<notin> serverIds then merged @ [li] else merged) rest"

text \<open>
  The merge inside \<^verbatim>\<open>load\<close>: the server's items are mapped to the local shape (any
  further field of a server item is dropped), their product ids are collected in a set,
  and the local items are pushed behind a copy of them by the loop above.
\<close>

definition merged_cart :: "'a cart_item_scheme list \<Rightarrow> cart_item list \<Rightarrow> cart_item list" where
  "merged_cart items local =
     (let serverItems = map local_shape items;
          serverIds = set (map product_id serverItems);
          merged = serverItems
      in push_local serverIds merged local)"

text \<open>The entries of a cart that carry a given product id.\<close>

definition entries_of :: "int \<Rightarrow> cart_item list \<Rightarrow> cart_item list" where
  "entries_of p xs = filter (\<lambda>e. product_id e = p) xs"

text \<open>
  What \<^verbatim>\<open>await fetchCartServer(token)\<close> resolves to, as far as \<^verbatim>\<open>load\<close> looks at it:
  \<open>Items\<close> when the body has an array \<^verbatim>\<open>items\<close>, \<open>NoItems\<close> when the body is falsy or
  its \<^verbatim>\<open>items\<close> is not an array.
\<close>

datatype 'a cart_response = Items "'a cart_item_scheme list" | NoItems

text \<open>
  \<^verbatim>\<open>fetchCartServer\<close> of \<^verbatim>\<open>api.js\<close>. \<open>fetched\<close> is the outcome of \<^verbatim>\<open>await fetch(url, ...)\<close>.
  A response that is not \<^verbatim>\<open>ok\<close> throws an error naming the status; otherwise the result
  is \<^verbatim>\<open>r.json()\<close>, which fails when the body cannot be read or is not JSON.
\<close>

definition fetchCartServer :: "(js_error + 'a cart_response response) \<Rightarrow> js_error + 'a cart_response" where
  "fetchCartServer fetched =
     (case fetched of
        Inl err \<Rightarrow> Inl err
      | Inr r \<Rightarrow>
          if \<not> ok r then Inl (Error (''fetchCartServer failed: '' @ show_nat (status r)))
          else (case body_text r of
                  Inl e \<Rightarrow> Inl e
                | Inr t \<Rightarrow> JSON_parse t))"

text \<open>The state of the \<^verbatim>\<open>Cart\<close> component: its React state and its \<^verbatim>\<open>pollRef\<close>.\<close>

record order_ref =
  order_id :: int
  order_status :: "string option"

record cart_page =
  cart :: "cart_item list"
  loading :: bool
  message :: "string option"
  lastOrder :: "order_ref option"
  pollRef :: "nat option"

text \<open>
  \<^verbatim>\<open>load\<close> of \<^verbatim>\<open>Cart\<close>. \<open>server\<close> is the outcome of \<^verbatim>\<open>await fetchCartServer(token)\<close>
  (\<open>Inl\<close> when it throws); it is looked at only when a token is stored. The local cart
  is parsed before the \<^verbatim>\<open>try\<close>.
\<close>

definition load :: "(js_error + 'a cart_response) \<Rightarrow> browser \<Rightarrow> cart_page \<Rightarrow> js_error + cart_page" where
  "load server b c =
     (let token = token_entry b in
      case local_cart b of
        Inl err \<Rightarrow> Inl err
      | Inr local \<Rightarrow>
          if truthy_token token then
            (case server of
               Inr (Items items) \<Rightarrow> Inr (c\<lparr>cart := merged_cart items local\<rparr>)
             | Inr NoItems \<Rightarrow> Inr (c\<lparr>cart := local\<rparr>)
             | Inl err \<Rightarrow>
                 Inr (c\<lparr>message := Some ''Could not load server cart; showing local cart.'',
                        cart := local\<rparr>))
          else Inr (c\<lparr>cart := local\<rparr>))"

text \<open>A product of the catalogue, as the list of \<^verbatim>\<open>Products\<close> shows it.\<close>

record product =
  p_id :: int
  p_name :: string
  p_description :: "string option"
  p_price :: rat

text \<open>
  The two places of the button's handler that write the local cart:
  \<^verbatim>\<open>existing = JSON.parse(localStorage.getItem("cart") || "[]"); existing.push({...});
  localStorage.setItem("cart", JSON.stringify(existing))\<close>.
\<close>

definition new_item :: "product \<Rightarrow> cart_item" where
  "new_item p = \<lparr>product_id = p_id p, quantity = 1, name = p_name p, price = p_price p\<rparr>"

definition save_locally :: "product \<Rightarrow> browser \<Rightarrow> js_error + browser" where
  "save_locally p b =
     (case local_cart b of
        Inl err \<Rightarrow> Inl err
      | Inr existing \<Rightarrow>
          Inr (b\<lparr>cart_entry := Some (JSON_stringify (existing @ [new_item p]))\<rparr>))"

text \<open>
  The handler of "Add to cart". \<open>added\<close> is the outcome of
  \<^verbatim>\<open>await addToCartServer(p.id, 1, token)\<close>, looked at only when a token is stored. The
  result is the browser and the alert shown last.
\<close>

definition add_to_cart :: "(js_error + unit) \<Rightarrow> product \<Rightarrow> browser \<Rightarrow> js_error + browser \<times> string" where
  "add_to_cart added p b =
     (let token = token_entry b in
      if truthy_token token then
        (case added of
           Inr u \<Rightarrow> Inr (b, ''Added to cart (server)'')
         | Inl err \<Rightarrow>
             (case save_locally p b of
                Inl e \<Rightarrow> Inl e
              | Inr b' \<Rightarrow> Inr (b', ''Failed to add to server cart, saved locally'')))
      else
        (case save_locally p b of
           Inl e \<Rightarrow> Inl e
         | Inr b' \<Rightarrow> Inr (b', ''Added to cart (local)'')))"

text \<open>The button pressed once for each outcome of the list, on the same product.\<close>

fun add_repeatedly :: "(js_error + unit) list \<Rightarrow> product \<Rightarrow> browser \<Rightarrow> js_error + browser" where
  "add_repeatedly [] p b = Inr b"
| "add_repeatedly (added # rest) p b =
     (case add_to_cart added p b of
        Inl e \<Rightarrow> Inl e
      | Inr (b', alert) \<Rightarrow> add_repeatedly rest p b')"

section \<open>Payment: \<^verbatim>\<open>createPayment\<close> of \<^verbatim>\<open>api.js\<close>\<close>

text \<open>
  \<^verbatim>\<open>createPayment\<close>. \<open>fetched\<close> is the outcome of \<^verbatim>\<open>await fetch(url, ...)\<close>. A failing
  \<^verbatim>\<open>r.text()\<close> gives the empty text. \<^verbatim>\<open>JSON.parse\<close> returns \<open>v\<close> on \<open>Json v\<close> and throws
  on \<open>NotJson s\<close>, where the \<^verbatim>\<open>catch\<close> builds \<^verbatim>\<open>{ raw: bodyText }\<close>. The \<^verbatim>\<open>catch\<close> around
  the whole body logs and throws the same error again.
\<close>

definition createPayment :: "(js_error + json response) \<Rightarrow> js_error + json" where
  "createPayment fetched =
     (case fetched of
        Inl err \<Rightarrow> Inl err
      | Inr r \<Rightarrow>
          (let bodyText = (case body_text r of Inl e \<Rightarrow> NotJson [] | Inr t \<Rightarrow> t);
               parsed =
                 (if truthy_text bodyText then
                    (case bodyText of
                       Json v \<Rightarrow> v
                     | NotJson s \<Rightarrow> JObj [(''raw'', JStr s)])
                  else JNull)
           in if status r = 200 then Inr parsed
              else if status r = 202 then
                Inr (if truthy parsed then parsed else JObj [(''result'', JStr ''PENDING'')])
              else Inl (Error (''Payment request failed: '' @ show_nat (status r)))))"

text \<open>
  Reading the status code back from the error \<^verbatim>\<open>createPayment\<close> throws: the decimal
  number behind the fixed words of the message.
\<close>

fun strip_prefix :: "string \<Rightarrow> string \<Rightarrow> string option" where
  "strip_prefix [] s = Some s"
| "strip_prefix (p # ps) [] = None"
| "strip_prefix (p # ps) (c # cs) = (if p = c then strip_prefix ps cs else None)"

definition status_of_error :: "js_error \<Rightarrow> nat option" where
  "status_of_error err =
     (case err of
        Error m \<Rightarrow>
          (case strip_prefix ''Payment request failed: '' m of
             None \<Rightarrow> None
           | Some digits \<Rightarrow> read_nat digits)
      | SyntaxError \<Rightarrow> None
      | TypeError \<Rightarrow> None)"

section \<open>Order lifecycle: \<^verbatim>\<open>placeOrder\<close>, its poll and the retry of \<^verbatim>\<open>pages/Cart.jsx\<close>\<close>

text \<open>
  The callback \<^verbatim>\<open>placeOrder\<close> hands to \<^verbatim>\<open>setInterval\<close>, for the order \<open>oid\<close> it closes
  over. \<open>r\<close> is the outcome of \<^verbatim>\<open>await fetchOrder(order.id)\<close>: \<open>Inl\<close> when it throws,
  \<open>Inr None\<close> for a falsy body. Each run of the callback is one fetch.
\<close>

definition poll_tick ::
  "int \<Rightarrow> (js_error + order_ref option) \<Rightarrow> browser \<times> cart_page \<Rightarrow> browser \<times> cart_page" where
  "poll_tick oid r w =
     (case w of (b, c) \<Rightarrow>
        (case r of
           Inl err \<Rightarrow> (b, c)
         | Inr statusResp \<Rightarrow>
             (case statusResp of
                None \<Rightarrow> (b, c)
              | Some resp \<Rightarrow>
                  (case order_status resp of
                     None \<Rightarrow> (b, c)
                   | Some st \<Rightarrow>
                       if st = [] then (b, c)
                       else if st = ''PAID'' then
                         (clearInterval (pollRef c) b,
                          c\<lparr>message := Some (''Payment successful for order '' @ show_int oid),
                            lastOrder := None,
                            pollRef := None\<rparr>)
                       else if st = ''PAYMENT_FAILED'' then
                         (clearInterval (pollRef c) b,
                          c\<lparr>message := Some (''Payment failed for order '' @ show_int oid),
                            lastOrder :=
                              Some \<lparr>order_id = oid, order_status = Some ''PAYMENT_FAILED''\<rparr>,
                            pollRef := None\<rparr>)
                       else (b, c)))))"

text \<open>
  The message \<^verbatim>\<open>placeOrder\<close> shows for a created order; its dash is the three bytes of
  U+2014.
\<close>

definition order_created_message :: "int \<Rightarrow> string" where
  "order_created_message oid =
     ''Bestellung erstellt (#'' @ show_int oid @ ''). Zahlung zur Bearbeitung eingereiht ''
       @ [CHR 0xE2, CHR 0x80, CHR 0x94] @ '' Status unter 'Meine Bestellungen'.''"

text \<open>
  \<^verbatim>\<open>placeOrder\<close>. \<open>created\<close> is the outcome of \<^verbatim>\<open>await createOrder()\<close>. The clearing
  of the server's cart is best effort and changes nothing here. The poll starts by
  disarming the timer \<^verbatim>\<open>pollRef\<close> holds, if any, and arming a new one.
\<close>

definition placeOrder :: "(js_error + order_ref) \<Rightarrow> browser \<times> cart_page \<Rightarrow> browser \<times> cart_page" where
  "placeOrder created w =
     (case w of (b, c) \<Rightarrow>
        if length (cart c) = 0 then (b, c\<lparr>message := Some ''Cart is empty''\<rparr>)
        else
          (case created of
             Inl err \<Rightarrow> (b, c\<lparr>message := Some (String_of_error err), loading := False\<rparr>)
           | Inr order \<Rightarrow>
               (let c1 = c\<lparr>lastOrder :=
                             Some \<lparr>order_id = order_id order, order_status = order_status order\<rparr>,
                           message := Some (order_created_message (order_id order)),
                           cart := []\<rparr>;
                    b1 = b\<lparr>cart_entry := None\<rparr>;
                    b2 = (if truthy_handle (pollRef c1) then clearInterval (pollRef c1) b1 else b1);
                    (h, b3) = setInterval b2
                in (b3, c1\<lparr>pollRef := Some h, loading := False\<rparr>))))"

text \<open>The cleanup of the effect, run when the component unmounts.\<close>

definition unmount :: "browser \<times> cart_page \<Rightarrow> browser \<times> cart_page" where
  "unmount w =
     (case w of (b, c) \<Rightarrow>
        ((if truthy_handle (pollRef c) then clearInterval (pollRef c) b else b), c))"

text \<open>
  \<^verbatim>\<open>handleRetryFromCart\<close>. \<open>fetched\<close> is the outcome of the \<^verbatim>\<open>fetch\<close> inside
  \<^verbatim>\<open>createPayment\<close>. It leaves \<^verbatim>\<open>pollRef\<close> and the timers alone.
\<close>

definition handleRetryFromCart ::
  "(js_error + json response) \<Rightarrow> browser \<times> cart_page \<Rightarrow> browser \<times> cart_page" where
  "handleRetryFromCart fetched w =
     (case w of (b, c) \<Rightarrow>
        (case lastOrder c of
           None \<Rightarrow> (b, c)
         | Some lo \<Rightarrow>
             if order_id lo = 0 then (b, c)
             else
               (let failed = (\<lambda>err. c\<lparr>message := Some (''Retry failed: '' @ String_of_error err),
                                      loading := False\<rparr>)
                in case createPayment fetched of
                     Inl err \<Rightarrow> (b, failed err)
                   | Inr pay \<Rightarrow>
                       (case get_member pay ''result'' of
                          Inl err \<Rightarrow> (b, failed err)
                        | Inr res \<Rightarrow>
                            if res = Some (JStr ''SUCCESS'') then
                              (b, c\<lparr>message :=
                                      Some (''Payment successful for order '' @ show_int (order_id lo)),
                                    lastOrder := None, loading := False\<rparr>)
                            else if res = Some (JStr ''PENDING'') then
                              (b, c\<lparr>message :=
                                      Some ''Payment still pending. It was not completed; you can retry manually.'',
                                    loading := False\<rparr>)
                            else
                              (b, c\<lparr>message := Some ''Payment retry failed. Try again later.'',
                                    loading := False\<rparr>)))))"

text \<open>
  The interval timer of handle \<open>h\<close> runs its callback once per period for as long as it
  is live. \<open>poll_run h oid rs\<close> feeds the callback the outcomes \<open>rs\<close> that successive
  fetches of the order would have, each fetch answered before the next period, and
  counts the fetches made.
\<close>

fun poll_run ::
  "nat \<Rightarrow> int \<Rightarrow> (js_error + order_ref option) list \<Rightarrow> browser \<times> cart_page
     \<Rightarrow> nat \<times> (browser \<times> cart_page)" where
  "poll_run h oid [] w = (0, w)"
| "poll_run h oid (r # rs) w =
     (if h \<in> set (intervals (fst w)) then
        (case poll_run h oid rs (poll_tick oid r w) of (n, w') \<Rightarrow> (Suc n, w'))
      else (0, w))"

text \<open>The status a tick observes, if any, and whether it is one of the two that end a poll.\<close>

definition observed :: "(js_error + order_ref option) \<Rightarrow> string option" where
  "observed r =
     (case r of
        Inl err \<Rightarrow> None
      | Inr statusResp \<Rightarrow> (case statusResp of None \<Rightarrow> None | Some resp \<Rightarrow> order_status resp))"

definition resolved :: "(js_error + order_ref option) \<Rightarrow> bool" where
  "resolved r = (observed r = Some ''PAID'' \<or> observed r = Some ''PAYMENT_FAILED'')"

text \<open>
  What can happen to a mounted \<^verbatim>\<open>Cart\<close>: the button places an order, a poll callback
  (of a live timer, or one still in flight when its timer was disarmed) finishes, the
  retry button is pressed, the component unmounts.
\<close>

datatype cart_event =
    PlaceOrder "js_error + order_ref"
  | PollCallback int "js_error + order_ref option"
  | RetryPayment "js_error + json response"
  | Unmount

fun step :: "cart_event \<Rightarrow> browser \<times> cart_page \<Rightarrow> browser \<times> cart_page" where
  "step (PlaceOrder created) w = placeOrder created w"
| "step (PollCallback oid r) w = poll_tick oid r w"
| "step (RetryPayment fetched) w = handleRetryFromCart fetched w"
| "step Unmount w = unmount w"

fun run :: "cart_event list \<Rightarrow> browser \<times> cart_page \<Rightarrow> browser \<times> cart_page" where
  "run [] w = w"
| "run (e # es) w = run es (step e w)"

text \<open>The live timers armed since the handle counter stood at \<open>base\<close>.\<close>

definition timers_since :: "nat \<Rightarrow> browser \<Rightarrow> nat list" where
  "timers_since base b = filter (\<lambda>h. base \<le> h) (intervals b)"

text \<open>
  The invariant of a mounted \<^verbatim>\<open>Cart\<close>, for the handle counter \<open>base\<close> at its mount: at
  most one timer armed since then is live, it is the one \<^verbatim>\<open>pollRef\<close> holds, handles are
  positive, and every live handle is below the counter.
\<close>

definition poll_inv :: "nat \<Rightarrow> browser \<times> cart_page \<Rightarrow> bool" where
  "poll_inv base w =
     (case w of (b, c) \<Rightarrow>
        length (timers_since base b) \<le> 1
        \<and> set (timers_since base b) \<subseteq> set_option (pollRef c)
        \<and> 0 < base \<and> base \<le> next_handle b
        \<and> (\<forall>h \<in> set (intervals b). h < next_handle b))"

section \<open>Order history: the sweep of \<^verbatim>\<open>pages/MyOrders.jsx\<close>\<close>

text \<open>
  \<^verbatim>\<open>needsPolling\<close>: the 5000 ms sweep that reloads all orders is armed while some order of
  the list has one of three statuses.
\<close>

definition needsPolling :: "order_ref list \<Rightarrow> bool" where
  "needsPolling list =
     list_ex (\<lambda>ord. order_status ord \<in> set [Some ''PENDING_PAYMENT'', Some ''PAYMENT_FAILED'', Some ''PENDING''])
       list"


section \<open>Values for the examples\<close>

definition tea :: cart_item where
  "tea = \<lparr>product_id = 1, quantity = 1, name = ''tea'', price = 3\<rparr>"

definition mug :: cart_item where
  "mug = \<lparr>product_id = 2, quantity = 1, name = ''mug'', price = 7\<rparr>"

definition teapot :: product where
  "teapot = \<lparr>p_id = 1, p_name = ''tea'', p_description = None, p_price = 3\<rparr>"

text \<open>
  A window with a stored token whose local cart holds two items, and a window in which
  neither a token nor a cart is stored.
\<close>

definition shop_window :: browser where
  "shop_window = \<lparr>token_entry = Some ''a.b.c'', cart_entry = Some (Json [tea, mug]),
     url = ''/cart'', intervals = [], next_handle = 1\<rparr>"

definition guest_window :: browser where
  "guest_window = \<lparr>token_entry = None, cart_entry = None,
     url = ''/products'', intervals = [], next_handle = 1\<rparr>"

text \<open>The \<^verbatim>\<open>Cart\<close> component as it mounts.\<close>

definition fresh_page :: cart_page where
  "fresh_page = \<lparr>cart = [], loading = False, message = None, lastOrder = None, pollRef = None\<rparr>"

text \<open>
  The cart page of a signed-in user: the liveness interval of \<^verbatim>\<open>App\<close> is live under
  handle 1, the cart is loaded. \<open>polling\<close> is the state right after an order 7 was
  placed from it: the poll timer has handle 2.
\<close>

definition cart_window :: browser where
  "cart_window = shop_window\<lparr>intervals := [1], next_handle := 2\<rparr>"

definition loaded_page :: cart_page where
  "loaded_page = fresh_page\<lparr>cart := [tea, mug]\<rparr>"

definition order7 :: order_ref where
  "order7 = \<lparr>order_id = 7, order_status = Some ''PENDING_PAYMENT''\<rparr>"

definition polling :: "browser \<times> cart_page" where
  "polling =
     (cart_window\<lparr>cart_entry := None, intervals := [1, 2], next_handle := 3\<rparr>,
      loaded_page\<lparr>cart := [], message := Some (order_created_message 7),
                  lastOrder := Some order7, pollRef := Some 2\<rparr>)"

text \<open>A fetch of order 7 that answers with the given status.\<close>

definition polled :: "string \<Rightarrow> js_error + order_ref option" where
  "polled st = Inr (Some \<lparr>order_id = 7, order_status = Some st\<rparr>)"

text \<open>
  The state \<open>polling\<close> with the cart filled again while the poll of order 7 is live, as
  a \<^verbatim>\<open>load\<close> that finishes after the order was placed leaves it; and a second order.
\<close>

definition refilled :: "browser \<times> cart_page" where
  "refilled = (fst polling, (snd polling)\<lparr>cart := [mug]\<rparr>)"

definition order8 :: order_ref where
  "order8 = \<lparr>order_id = 8, order_status = Some ''PENDING_PAYMENT''\<rparr>"


section \<open>Properties of the cart merge\<close>

lemma push_local_filter:
  "push_local ids acc ls = acc @ filter (\<lambda>li. product_id li \<notin> ids) ls"
  by (induction ls arbitrary: acc) simp_all

lemma product_id_local_shape: "product_id (local_shape it) = product_id it"
  by (simp add: local_shape_def)

lemma merged_cart_append:
  "merged_cart items local =
     map local_shape items @ filter (\<lambda>li. product_id li \<notin> set (map product_id items)) local"
  by (simp add: merged_cart_def Let_def push_local_filter product_id_local_shape o_def image_image)

lemma entries_of_append: "entries_of p (xs @ ys) = entries_of p xs @ entries_of p ys"
  by (simp add: entries_of_def)

lemma entries_of_map_shape:
  "entries_of p (map local_shape items) = map local_shape (filter (\<lambda>it. product_id it = p) items)"
  by (induction items) (simp_all add: entries_of_def product_id_local_shape)

lemma entries_of_absent:
  "p \<in> ids \<Longrightarrow> entries_of p (filter (\<lambda>li. product_id li \<notin> ids) local) = []"
  by (induction local) (auto simp: entries_of_def)

lemma distinct_single_entry:
  "distinct (map product_id items) \<Longrightarrow> p \<in> set (map product_id items)
     \<Longrightarrow> length (filter (\<lambda>it. product_id it = p) items) = 1"
proof (induction items)
  case Nil
  then show ?case by simp
next
  case (Cons a items)
  show ?case
  proof (cases "product_id a = p")
    case True
    with Cons.prems have "p \<notin> set (map product_id items)" by auto
    then have "filter (\<lambda>it. product_id it = p) items = []"
      by (auto simp: filter_empty_conv)
    with True show ?thesis by simp
  next
    case False
    with Cons show ?thesis by auto
  qed
qed

text \<open>
  C1, as the code has it. For every pair of server items and local items the merge of
  \<^verbatim>\<open>load\<close> is the server's items in their order, each carrying the server's product id,
  quantity, name and price, followed by exactly the local items whose product id no
  server item has, in their order. The entries of the merge for a product id of the
  server are the server's own entries for it: one entry per server item, hence exactly
  one per product id when the server's list repeats no product id.
\<close>

theorem merged_cart_server_then_local:
  fixes items :: "'a cart_item_scheme list"
  shows
  "merged_cart items local =
     map local_shape items @ filter (\<lambda>li. product_id li \<notin> set (map product_id items)) local
   \<and> (\<forall>i < length items.
        product_id (merged_cart items local ! i) = product_id (items ! i)
        \<and> quantity (merged_cart items local ! i) = quantity (items ! i)
        \<and> name (merged_cart items local ! i) = name (items ! i)
        \<and> price (merged_cart items local ! i) = price (items ! i))
   \<and> (\<forall>p \<in> set (map product_id items).
        entries_of p (merged_cart items local)
          = map local_shape (filter (\<lambda>it. product_id it = p) items))
   \<and> (distinct (map product_id items) \<longrightarrow>
        (\<forall>p \<in> set (map product_id items). length (entries_of p (merged_cart items local)) = 1))"
proof (intro conjI)
  show eq: "merged_cart items local =
     map local_shape items @ filter (\<lambda>li. product_id li \<notin> set (map product_id items)) local"
    by (rule merged_cart_append)
  show "\<forall>i < length items.
        product_id (merged_cart items local ! i) = product_id (items ! i)
        \<and> quantity (merged_cart items local ! i) = quantity (items ! i)
        \<and> name (merged_cart items local ! i) = name (items ! i)
        \<and> price (merged_cart items local ! i) = price (items ! i)"
    by (simp add: eq nth_append local_shape_def)
  show per_id: "\<forall>p \<in> set (map product_id items).
        entries_of p (merged_cart items local)
          = map local_shape (filter (\<lambda>it. product_id it = p) items)"
    by (simp add: eq entries_of_append entries_of_map_shape entries_of_absent)
  show "distinct (map product_id items) \<longrightarrow>
        (\<forall>p \<in> set (map product_id items). length (entries_of p (merged_cart items local)) = 1)"
  proof (intro impI ballI)
    fix p
    assume d: "distinct (map product_id items)" and p: "p \<in> set (map product_id items)"
    from per_id p have "entries_of p (merged_cart items local)
        = map local_shape (filter (\<lambda>it. product_id it = p) items)"
      by blast
    then have "length (entries_of p (merged_cart items local))
        = length (filter (\<lambda>it. product_id it = p) items)"
      by simp
    with distinct_single_entry [OF d p] show "length (entries_of p (merged_cart items local)) = 1"
      by simp
  qed
qed

text \<open>
  The scenario of the specification: the server holds product 1 with quantity 2, the
  local cart product 1 with quantity 5 and product 2.
\<close>

theorem merged_cart_server_then_local_witness:
  "merged_cart
     [\<lparr>product_id = 1, quantity = 2, name = ''tea'', price = 3\<rparr>]
     [\<lparr>product_id = 1, quantity = 5, name = ''tea'', price = 3\<rparr>,
      \<lparr>product_id = 2, quantity = 1, name = ''mug'', price = 7\<rparr>]
   = [\<lparr>product_id = 1, quantity = 2, name = ''tea'', price = 3\<rparr>,
      \<lparr>product_id = 2, quantity = 1, name = ''mug'', price = 7\<rparr>]
   \<and> length (entries_of 1 (merged_cart
        [\<lparr>product_id = 1, quantity = 2, name = ''tea'', price = 3\<rparr>]
        [\<lparr>product_id = 1, quantity = 5, name = ''tea'', price = 3\<rparr>,
         \<lparr>product_id = 2, quantity = 1, name = ''mug'', price = 7\<rparr>])) = 1"
  using merged_cart_server_then_local
    [of "[\<lparr>product_id = 1, quantity = 2, name = ''tea'', price = 3\<rparr>]"
        "[\<lparr>product_id = 1, quantity = 5, name = ''tea'', price = 3\<rparr>,
          \<lparr>product_id = 2, quantity = 1, name = ''mug'', price = 7\<rparr>]"]
  by (simp add: local_shape_def entries_of_def)

text \<open>
  A server list that names product 1 twice is merged into a cart with two entries for
  product 1: the merge does not bring a product id down to one entry.
\<close>

theorem merged_cart_repeated_server_id:
  "merged_cart
     [\<lparr>product_id = 1, quantity = 2, name = ''tea'', price = 3\<rparr>,
      \<lparr>product_id = 1, quantity = 4, name = ''tea'', price = 3\<rparr>] []
   = [\<lparr>product_id = 1, quantity = 2, name = ''tea'', price = 3\<rparr>,
      \<lparr>product_id = 1, quantity = 4, name = ''tea'', price = 3\<rparr>]
   \<and> length (entries_of 1 (merged_cart
        [\<lparr>product_id = 1, quantity = 2, name = ''tea'', price = 3\<rparr>,
         \<lparr>product_id = 1, quantity = 4, name = ''tea'', price = 3\<rparr>] [])) = 2"
  by (simp add: merged_cart_def local_shape_def entries_of_def)

section \<open>Properties of \<^verbatim>\<open>load\<close>\<close>

lemma local_cart_readable:
  "readable_cart b \<Longrightarrow> \<exists>local. local_cart b = Inr local"
  by (auto simp: readable_cart_def local_cart_def JSON_parse_def truthy_text_def
           split: option.splits js_text.splits)

lemma local_cart_unreadable:
  "\<not> readable_cart b \<Longrightarrow> local_cart b = Inl SyntaxError"
  by (auto simp: readable_cart_def local_cart_def JSON_parse_def truthy_text_def
           split: option.splits js_text.splits)

lemma distinct_merged_cart:
  "distinct (map product_id (merged_cart items local)) =
     (distinct (map product_id items)
      \<and> distinct (map product_id
            (filter (\<lambda>li. product_id li \<notin> set (map product_id items)) local)))"
proof -
  have disjoint: "set (map product_id items)
      \<inter> set (map product_id
            (filter (\<lambda>li. product_id li \<notin> set (map product_id items)) local)) = {}"
    by (induction local) auto
  have "map product_id (merged_cart items local) =
      map product_id items
        @ map product_id (filter (\<lambda>li. product_id li \<notin> set (map product_id items)) local)"
    by (simp add: merged_cart_append product_id_local_shape o_def)
  then show ?thesis
    using disjoint by (simp only: distinct_append) blast
qed

lemma distinct_map_filter_id:
  "distinct (map f xs) \<Longrightarrow> distinct (map f (filter P xs))"
  by (induction xs) auto

text \<open>
  C2, as the code has it. With a token stored and the server's cart fetched, \<^verbatim>\<open>load\<close>
  sets the cart to the merge, and the merged cart has at most one entry per product id
  exactly when the server's items repeat no product id and the local items that no
  server item names repeat none either. In particular it has at most one entry per
  product id when neither list repeats one.
\<close>

theorem load_merge_distinct_ids:
  fixes items :: "'a cart_item_scheme list"
  assumes tok: "truthy_token (token_entry b)"
    and loc: "local_cart b = Inr local"
  shows "load (Inr (Items items)) b c = Inr (c\<lparr>cart := merged_cart items local\<rparr>)
    \<and> (distinct (map product_id (merged_cart items local)) =
         (distinct (map product_id items)
          \<and> distinct (map product_id
                (filter (\<lambda>li. product_id li \<notin> set (map product_id items)) local))))
    \<and> (distinct (map product_id items) \<and> distinct (map product_id local)
         \<longrightarrow> distinct (map product_id (merged_cart items local)))"
proof (intro conjI)
  show "load (Inr (Items items)) b c = Inr (c\<lparr>cart := merged_cart items local\<rparr>)"
    using tok loc by (simp add: load_def)
  show "distinct (map product_id (merged_cart items local)) =
         (distinct (map product_id items)
          \<and> distinct (map product_id
                (filter (\<lambda>li. product_id li \<notin> set (map product_id items)) local)))"
    by (rule distinct_merged_cart)
  show "distinct (map product_id items) \<and> distinct (map product_id local)
         \<longrightarrow> distinct (map product_id (merged_cart items local))"
    by (simp add: distinct_merged_cart distinct_map_filter_id)
qed

theorem load_merge_distinct_ids_witness:
  "load (Inr (Items [tea])) shop_window fresh_page = Inr (fresh_page\<lparr>cart := [tea, mug]\<rparr>)
   \<and> distinct (map product_id (merged_cart [tea] [tea, mug]))"
proof -
  have tok: "truthy_token (token_entry shop_window)"
    by (simp add: shop_window_def truthy_token_def)
  have loc: "local_cart shop_window = Inr [tea, mug]"
    by (simp add: shop_window_def local_cart_def JSON_parse_def truthy_text_def)
  have d: "distinct (map product_id [tea]) \<and> distinct (map product_id [tea, mug])"
    by (simp add: tea_def mug_def)
  have m: "merged_cart [tea] [tea, mug] = [tea, mug]"
    by (simp add: merged_cart_def local_shape_def tea_def mug_def)
  from load_merge_distinct_ids [OF tok loc, of "[tea]" fresh_page] d m
  show ?thesis by simp
qed

text \<open>
  A local cart that holds the same product twice, as two presses of "Add to cart"
  without a session leave it, and an empty server cart: \<^verbatim>\<open>load\<close> shows both entries.
\<close>

theorem load_keeps_repeated_local_id:
  "load (Inr (Items ([] :: cart_item list)))
     (shop_window\<lparr>cart_entry := Some (Json [mug, mug])\<rparr>) fresh_page
   = Inr (fresh_page\<lparr>cart := [mug, mug]\<rparr>)
   \<and> map product_id [mug, mug] = [2, 2]"
  by (simp add: load_def shop_window_def local_cart_def JSON_parse_def truthy_text_def
        truthy_token_def merged_cart_def mug_def)

lemma fetchCartServer_throws:
  "isl (fetchCartServer fetched) =
     (case fetched of
        Inl err \<Rightarrow> True
      | Inr r \<Rightarrow>
          \<not> ok r \<or> (case body_text r of
                       Inl e \<Rightarrow> True
                     | Inr t \<Rightarrow> (case t of Json v \<Rightarrow> False | NotJson s \<Rightarrow> True)))"
  by (simp add: fetchCartServer_def JSON_parse_def split: sum.splits js_text.splits)

text \<open>
  C7, as the code has it. Whenever the stored cart is one \<^verbatim>\<open>JSON.parse\<close> reads (no
  entry, the empty string or the JSON notation of a list of items), \<^verbatim>\<open>load\<close> returns
  for every outcome of the server fetch. When a token is stored and the fetch fails (the
  request itself, a status that is not \<^verbatim>\<open>ok\<close>, a body that is not JSON) it shows the
  local cart alone and sets the advisory message; without a token it shows the local
  cart. A stored cart that is not JSON notation makes \<^verbatim>\<open>load\<close> throw the parser's
  SyntaxError, whatever the server answers: the parse stands before the \<^verbatim>\<open>try\<close>.
\<close>

theorem load_never_throws_on_readable_cart:
  fixes fetched :: "js_error + 'a cart_response response"
  shows
  "(readable_cart b \<longrightarrow>
      (\<exists>local. local_cart b = Inr local
         \<and> \<not> isl (load (fetchCartServer fetched) b c)
         \<and> (truthy_token (token_entry b) \<and> isl (fetchCartServer fetched) \<longrightarrow>
              load (fetchCartServer fetched) b c =
                Inr (c\<lparr>message := Some ''Could not load server cart; showing local cart.'',
                       cart := local\<rparr>))
         \<and> (\<not> truthy_token (token_entry b) \<longrightarrow>
              load (fetchCartServer fetched) b c = Inr (c\<lparr>cart := local\<rparr>))))
   \<and> (\<not> readable_cart b \<longrightarrow> load (fetchCartServer fetched) b c = Inl SyntaxError)"
proof (intro conjI impI)
  assume r: "readable_cart b"
  then obtain local where loc: "local_cart b = Inr local"
    using local_cart_readable by blast
  have "\<not> isl (load (fetchCartServer fetched) b c)"
    using loc by (simp add: load_def split: sum.splits cart_response.splits)
  moreover have "truthy_token (token_entry b) \<and> isl (fetchCartServer fetched) \<longrightarrow>
      load (fetchCartServer fetched) b c =
         Inr (c\<lparr>message := Some ''Could not load server cart; showing local cart.'',
                cart := local\<rparr>)"
    using loc by (auto simp: load_def split: sum.splits)
  moreover have "\<not> truthy_token (token_entry b) \<longrightarrow>
      load (fetchCartServer fetched) b c = Inr (c\<lparr>cart := local\<rparr>)"
    using loc by (simp add: load_def)
  ultimately show "\<exists>local. local_cart b = Inr local
         \<and> \<not> isl (load (fetchCartServer fetched) b c)
         \<and> (truthy_token (token_entry b) \<and> isl (fetchCartServer fetched) \<longrightarrow>
              load (fetchCartServer fetched) b c =
                Inr (c\<lparr>message := Some ''Could not load server cart; showing local cart.'',
                       cart := local\<rparr>))
         \<and> (\<not> truthy_token (token_entry b) \<longrightarrow>
              load (fetchCartServer fetched) b c = Inr (c\<lparr>cart := local\<rparr>))"
    using loc by blast
next
  assume "\<not> readable_cart b"
  then show "load (fetchCartServer fetched) b c = Inl SyntaxError"
    by (simp add: load_def local_cart_unreadable)
qed

text \<open>The server answers 500 while the local cart holds two items.\<close>

theorem load_never_throws_on_readable_cart_witness:
  "readable_cart shop_window
   \<and> load (fetchCartServer
             (Inr \<lparr>status = 500,
                   body_text = Inr (NotJson ''Internal Server Error'' :: unit cart_response js_text)\<rparr>))
       shop_window fresh_page
     = Inr (fresh_page\<lparr>message := Some ''Could not load server cart; showing local cart.'',
                       cart := [tea, mug]\<rparr>)"
proof -
  have r: "readable_cart shop_window"
    by (simp add: shop_window_def readable_cart_def)
  have tok: "truthy_token (token_entry shop_window)"
    by (simp add: shop_window_def truthy_token_def)
  have loc: "local_cart shop_window = Inr [tea, mug]"
    by (simp add: shop_window_def local_cart_def JSON_parse_def truthy_text_def)
  have failed: "isl (fetchCartServer
             (Inr \<lparr>status = 500,
                   body_text = Inr (NotJson ''Internal Server Error'' :: unit cart_response js_text)\<rparr>))"
    by (simp add: fetchCartServer_throws ok_def)
  from load_never_throws_on_readable_cart
         [of shop_window
             "Inr \<lparr>status = 500,
                   body_text = Inr (NotJson ''Internal Server Error'' :: unit cart_response js_text)\<rparr>"
             fresh_page] r tok loc failed
  show ?thesis by auto
qed

text \<open>
  The stored cart \<^verbatim>\<open>[{\<close> is not JSON notation: \<^verbatim>\<open>load\<close> throws out of the call, here
  with a server that answers 200 and an empty cart.
\<close>

theorem load_throws_on_unreadable_cart:
  "load (fetchCartServer
           (Inr \<lparr>status = 200,
                 body_text = Inr (Json (Items ([] :: cart_item list)))\<rparr>))
     (shop_window\<lparr>cart_entry := Some (NotJson ''[{'')\<rparr>) fresh_page
   = Inl SyntaxError"
  by (simp add: load_def shop_window_def local_cart_def JSON_parse_def truthy_text_def)

section \<open>Properties of adding to the local cart\<close>

lemma local_cart_after_save:
  "local_cart (b\<lparr>cart_entry := Some (JSON_stringify xs)\<rparr>) = Inr xs"
  by (simp add: local_cart_def JSON_stringify_def JSON_parse_def truthy_text_def)

lemma add_to_cart_local:
  assumes loc: "local_cart b = Inr existing"
    and off: "\<not> truthy_token (token_entry b) \<or> isl added"
  shows "\<exists>alert. add_to_cart added p b =
           Inr (b\<lparr>cart_entry := Some (JSON_stringify (existing @ [new_item p]))\<rparr>, alert)"
  using loc off
  by (auto simp: add_to_cart_def save_locally_def Let_def split: sum.splits)

lemma entries_of_replicate_new_item:
  "entries_of (p_id p) (replicate n (new_item p)) = replicate n (new_item p)"
  by (induction n) (simp_all add: entries_of_def new_item_def)

text \<open>
  C10. When the button saves locally (no token is stored, or every request to the
  server fails) and the stored cart is one \<^verbatim>\<open>JSON.parse\<close> reads, each press appends one
  new entry with quantity 1 behind the existing ones, whether or not the product is
  already there: after \<open>n\<close> presses on the same product the stored cart has \<open>n\<close> more
  entries with that product id.
\<close>

theorem add_repeatedly_appends_entries:
  assumes loc: "local_cart b = Inr existing"
    and off: "\<not> truthy_token (token_entry b) \<or> (\<forall>added \<in> set addeds. isl added)"
  shows "\<exists>b'. add_repeatedly addeds p b = Inr b'
           \<and> local_cart b' = Inr (existing @ replicate (length addeds) (new_item p))
           \<and> quantity (new_item p) = 1 \<and> product_id (new_item p) = p_id p
           \<and> length (entries_of (p_id p) (existing @ replicate (length addeds) (new_item p)))
               = length (entries_of (p_id p) existing) + length addeds"
proof -
  have run: "\<exists>b'. add_repeatedly addeds p b = Inr b'
           \<and> local_cart b' = Inr (existing @ replicate (length addeds) (new_item p))"
    using loc off
  proof (induction addeds arbitrary: b existing)
    case Nil
    then show ?case by simp
  next
    case (Cons added rest)
    from Cons.prems(2) have off1: "\<not> truthy_token (token_entry b) \<or> isl added"
      by auto
    from add_to_cart_local [OF Cons.prems(1) off1, of p]
    obtain alert where step: "add_to_cart added p b =
        Inr (b\<lparr>cart_entry := Some (JSON_stringify (existing @ [new_item p]))\<rparr>, alert)"
      by blast
    let ?b1 = "b\<lparr>cart_entry := Some (JSON_stringify (existing @ [new_item p]))\<rparr>"
    have loc1: "local_cart ?b1 = Inr (existing @ [new_item p])"
      by (rule local_cart_after_save)
    have off': "\<not> truthy_token (token_entry ?b1) \<or> (\<forall>added \<in> set rest. isl added)"
      using Cons.prems(2) by auto
    from Cons.IH [OF loc1 off']
    obtain b' where "add_repeatedly rest p ?b1 = Inr b'"
      and "local_cart b' = Inr ((existing @ [new_item p]) @ replicate (length rest) (new_item p))"
      by blast
    then show ?case
      using step by (simp add: replicate_app_Cons_same)
  qed
  have count: "length (entries_of (p_id p) (existing @ replicate (length addeds) (new_item p)))
               = length (entries_of (p_id p) existing) + length addeds"
    by (simp add: entries_of_append entries_of_replicate_new_item)
  from run count show ?thesis
    by (auto simp: new_item_def)
qed

text \<open>Three presses without a stored token on the same product leave three entries of it.\<close>

theorem add_repeatedly_appends_entries_witness:
  "add_repeatedly [Inr (), Inr (), Inr ()] teapot guest_window
     = Inr (guest_window\<lparr>cart_entry := Some (Json [tea, tea, tea])\<rparr>)
   \<and> length (entries_of 1 [tea, tea, tea]) = 3"
proof -
  have loc: "local_cart guest_window = Inr []"
    by (simp add: guest_window_def local_cart_def JSON_parse_def)
  have off: "\<not> truthy_token (token_entry guest_window)
      \<or> (\<forall>added \<in> set [Inr (), Inr (), Inr ()]. isl (added :: js_error + unit))"
    by (simp add: guest_window_def truthy_token_def)
  have item: "new_item teapot = tea"
    by (simp add: new_item_def teapot_def tea_def)
  have id: "p_id teapot = 1"
    by (simp add: teapot_def)
  have run: "add_repeatedly [Inr (), Inr (), Inr ()] teapot guest_window
     = Inr (guest_window\<lparr>cart_entry := Some (Json [tea, tea, tea])\<rparr>)"
    by (simp add: add_to_cart_def save_locally_def local_cart_def JSON_parse_def
          JSON_stringify_def truthy_text_def truthy_token_def guest_window_def item)
  have none: "entries_of 1 [] = []"
    by (simp add: entries_of_def)
  from add_repeatedly_appends_entries [OF loc off, of teapot] run item id none
  show ?thesis
    by (simp add: numeral_3_eq_3)
qed

section \<open>Properties of \<^verbatim>\<open>createPayment\<close>\<close>

lemma digit_value_digit:
  assumes "d < 10"
  shows "digit_value (digit d) = Some d"
proof -
  from assms
  have "d = 0 \<or> d = 1 \<or> d = 2 \<or> d = 3 \<or> d = 4 \<or> d = 5 \<or> d = 6 \<or> d = 7 \<or> d = 8 \<or> d = 9"
    by arith
  then show ?thesis
    by (elim disjE) (simp_all add: digit_def digit_value_def upt_rec)
qed

lemma show_nat_nonempty: "show_nat n \<noteq> []"
  by (subst show_nat.simps) simp

lemma read_digits_append:
  "read_digits acc (xs @ ys) =
     (case read_digits acc xs of None \<Rightarrow> None | Some a \<Rightarrow> read_digits a ys)"
  by (induction xs arbitrary: acc) (simp_all split: option.splits)

lemma read_digits_show_nat: "read_digits 0 (show_nat n) = Some n"
proof (induction n rule: show_nat.induct)
  case (1 n)
  show ?case
  proof (cases "n < 10")
    case True
    then show ?thesis
      by (subst show_nat.simps) (simp add: digit_value_digit)
  next
    case False
    with 1 have ih: "read_digits 0 (show_nat (n div 10)) = Some (n div 10)"
      by simp
    have "n mod 10 < 10" by simp
    then have dv: "digit_value (digit (n mod 10)) = Some (n mod 10)"
      by (rule digit_value_digit)
    show ?thesis
      using False by (subst show_nat.simps) (simp add: read_digits_append ih dv)
  qed
qed

lemma read_nat_show_nat: "read_nat (show_nat n) = Some n"
  by (simp add: read_nat_def show_nat_nonempty read_digits_show_nat)

lemma strip_prefix_append: "strip_prefix p (p @ s) = Some s"
  by (induction p) simp_all

lemma status_of_error_message:
  "status_of_error (Error (''Payment request failed: '' @ show_nat n)) = Some n"
  by (simp only: status_of_error_def js_error.case strip_prefix_append option.case
        read_nat_show_nat)

lemma createPayment_other_status:
  "status r \<noteq> 200 \<Longrightarrow> status r \<noteq> 202 \<Longrightarrow>
     createPayment (Inr r) = Inl (Error (''Payment request failed: '' @ show_nat (status r)))"
  by (simp add: createPayment_def Let_def)

text \<open>
  C3, as the code has it. A response with status 202 never makes \<^verbatim>\<open>createPayment\<close>
  raise. A response with a status other than 200 and 202 always makes it raise, the
  error's message being the fixed words followed by the status in decimal, from which
  the status is read back. The error is the same whatever the body of the response is:
  the body text is written to the console and is not part of the error.
\<close>

theorem createPayment_raises_by_status:
  "(status r = 202 \<longrightarrow> \<not> isl (createPayment (Inr r)))
   \<and> (status r \<noteq> 200 \<and> status r \<noteq> 202 \<longrightarrow>
        createPayment (Inr r) = Inl (Error (''Payment request failed: '' @ show_nat (status r)))
        \<and> (\<forall>e. createPayment (Inr r) = Inl e \<longrightarrow> status_of_error e = Some (status r))
        \<and> (\<forall>t. createPayment (Inr (r\<lparr>body_text := t\<rparr>)) = createPayment (Inr r)))"
proof (intro conjI impI)
  assume "status r = 202"
  then show "\<not> isl (createPayment (Inr r))"
    by (simp add: createPayment_def Let_def)
next
  assume other: "status r \<noteq> 200 \<and> status r \<noteq> 202"
  then show raised: "createPayment (Inr r) =
      Inl (Error (''Payment request failed: '' @ show_nat (status r)))"
    by (simp add: createPayment_other_status)
  show "\<forall>e. createPayment (Inr r) = Inl e \<longrightarrow> status_of_error e = Some (status r)"
    using raised status_of_error_message by auto
  show "\<forall>t. createPayment (Inr (r\<lparr>body_text := t\<rparr>)) = createPayment (Inr r)"
    using other by (simp add: createPayment_other_status)
qed

theorem createPayment_raises_by_status_witness:
  "\<not> isl (createPayment (Inr \<lparr>status = 202, body_text = Inr (NotJson ''accepted'')\<rparr>))
   \<and> createPayment (Inr \<lparr>status = 503, body_text = Inr (NotJson ''busy'')\<rparr>)
       = Inl (Error ''Payment request failed: 503'')
   \<and> status_of_error (Error ''Payment request failed: 503'') = Some 503"
proof -
  have s: "show_nat 503 = ''503''"
    by (simp add: show_nat.simps digit_def)
  from createPayment_raises_by_status
         [of "\<lparr>status = 202, body_text = Inr (NotJson ''accepted'')\<rparr>"]
       createPayment_raises_by_status
         [of "\<lparr>status = 503, body_text = Inr (NotJson ''busy'')\<rparr>"] s
  show ?thesis by simp
qed

text \<open>
  Two responses with status 500 and different bodies raise the same error: the body
  text cannot be read back from it.
\<close>

theorem createPayment_error_forgets_body:
  "createPayment (Inr \<lparr>status = 500, body_text = Inr (NotJson ''card declined'')\<rparr>)
     = Inl (Error ''Payment request failed: 500'')
   \<and> createPayment (Inr \<lparr>status = 500, body_text = Inr (NotJson ''gateway timeout'')\<rparr>)
     = Inl (Error ''Payment request failed: 500'')"
  by (simp add: createPayment_def Let_def show_nat.simps digit_def)

text \<open>
  C4, as the code has it. For a response with status 202 \<^verbatim>\<open>createPayment\<close> returns the
  parsed body when the body text is JSON notation of a truthy value; it returns
  \<^verbatim>\<open>{ raw: text }\<close> when the text is not empty and not JSON notation; and it returns the
  synthesized \<^verbatim>\<open>{ result: 'PENDING' }\<close> when the text is empty or could not be read, or
  is the notation of a falsy value (\<^verbatim>\<open>null\<close>, \<^verbatim>\<open>false\<close>, \<^verbatim>\<open>0\<close>, \<^verbatim>\<open>""\<close>). For status
  200 it returns the parsed body, \<^verbatim>\<open>{ raw: text }\<close> for a text that is not JSON notation,
  and \<^verbatim>\<open>null\<close> for an empty one. A text that fails to parse never fails the call.
\<close>

theorem createPayment_accepted_body:
  "(status r = 202 \<longrightarrow>
      createPayment (Inr r) =
        Inr (case body_text r of
               Inl e \<Rightarrow> JObj [(''result'', JStr ''PENDING'')]
             | Inr t \<Rightarrow>
                 (case t of
                    NotJson s \<Rightarrow>
                      if s = [] then JObj [(''result'', JStr ''PENDING'')]
                      else JObj [(''raw'', JStr s)]
                  | Json v \<Rightarrow> if truthy v then v else JObj [(''result'', JStr ''PENDING'')])))
   \<and> (status r = 200 \<longrightarrow>
      createPayment (Inr r) =
        Inr (case body_text r of
               Inl e \<Rightarrow> JNull
             | Inr t \<Rightarrow>
                 (case t of
                    NotJson s \<Rightarrow> if s = [] then JNull else JObj [(''raw'', JStr s)]
                  | Json v \<Rightarrow> v)))"
  by (auto simp: createPayment_def Let_def truthy_text_def split: sum.splits js_text.splits)

theorem createPayment_accepted_body_witness:
  "createPayment (Inr \<lparr>status = 202, body_text = Inr (Json (JObj [(''result'', JStr ''PENDING'')]))\<rparr>)
     = Inr (JObj [(''result'', JStr ''PENDING'')])
   \<and> createPayment (Inr \<lparr>status = 202, body_text = Inr (NotJson ''<html>'')\<rparr>)
     = Inr (JObj [(''raw'', JStr ''<html>'')])
   \<and> createPayment (Inr \<lparr>status = 202, body_text = Inr (NotJson [])\<rparr>)
     = Inr (JObj [(''result'', JStr ''PENDING'')])
   \<and> createPayment (Inr \<lparr>status = 200, body_text = Inr (Json (JObj [(''result'', JStr ''SUCCESS'')]))\<rparr>)
     = Inr (JObj [(''result'', JStr ''SUCCESS'')])"
  using createPayment_accepted_body
          [of "\<lparr>status = 202, body_text = Inr (Json (JObj [(''result'', JStr ''PENDING'')]))\<rparr>"]
        createPayment_accepted_body
          [of "\<lparr>status = 202, body_text = Inr (NotJson ''<html>'')\<rparr>"]
        createPayment_accepted_body
          [of "\<lparr>status = 202, body_text = Inr (NotJson [])\<rparr>"]
        createPayment_accepted_body
          [of "\<lparr>status = 200, body_text = Inr (Json (JObj [(''result'', JStr ''SUCCESS'')]))\<rparr>"]
  by simp

text \<open>
  The body \<^verbatim>\<open>null\<close> parses as JSON, and with status 202 the call returns the synthesized
  object in its place; the synthesized object has the member \<^verbatim>\<open>result\<close>.
\<close>

theorem createPayment_null_body_synthesized:
  "createPayment (Inr \<lparr>status = 202, body_text = Inr (Json JNull)\<rparr>)
     = Inr (JObj [(''result'', JStr ''PENDING'')])
   \<and> JSON_parse (Json JNull) = Inr JNull
   \<and> JObj [(''result'', JStr ''PENDING'')] \<noteq> JNull
   \<and> JObj [(''result'', JStr ''PENDING'')] \<noteq> JObj [(''outcome'', JStr ''PENDING'')]"
  by (simp add: createPayment_def Let_def truthy_text_def JSON_parse_def)

section \<open>Properties of the session guard\<close>







lemma logout_effect:
  "logout (b, a) = (b\<lparr>token_entry := None, url := ''/login''\<rparr>, a\<lparr>token_state := None\<rparr>)"
  by (simp add: logout_def clearAuth_def Let_def)

text \<open>
  C5, as the code has it. On every tick of the liveness interval: if a non-empty token
  is stored and it is not valid, the tick signs out (the credential is removed, the
  component's token is reset and the location becomes \<^verbatim>\<open>/login\<close>); if the stored token is
  valid, or no token is stored, the tick changes nothing.
\<close>

theorem liveness_tick_signs_out_stored_invalid:
  "liveness_tick decode now (b, a) =
     (if truthy_token (token_entry b) \<and> \<not> isTokenValid decode now (token_entry b)
      then (b\<lparr>token_entry := None, url := ''/login''\<rparr>, a\<lparr>token_state := None\<rparr>)
      else (b, a))
   \<and> (\<not> truthy_token (token_entry b) \<longrightarrow> liveness_tick decode now (b, a) = (b, a))"
  by (simp add: liveness_tick_def getToken_def logout_effect Let_def)

theorem liveness_tick_signs_out_stored_invalid_witness:
  "liveness_tick decode_example 100000
     (shop_window\<lparr>token_entry := Some ''h.eyJleHAiOjEwMH0.s''\<rparr>,
      \<lparr>token_state = Some ''h.eyJleHAiOjEwMH0.s'', expiresIn = None\<rparr>)
   = (shop_window\<lparr>token_entry := None, url := ''/login''\<rparr>, \<lparr>token_state = None, expiresIn = None\<rparr>)
   \<and> liveness_tick decode_example 100000 (guest_window, \<lparr>token_state = None, expiresIn = None\<rparr>)
     = (guest_window, \<lparr>token_state = None, expiresIn = None\<rparr>)"
proof -
  have inv: "\<not> isTokenValid decode_example 100000 (Some ''h.eyJleHAiOjEwMH0.s'')"
    by (simp add: isTokenValid_def parseJwt_def url_to_base64_def decode_example_def)
  have t: "truthy_token (Some ''h.eyJleHAiOjEwMH0.s'')" "\<not> truthy_token (token_entry guest_window)"
    by (simp_all add: truthy_token_def guest_window_def)
  from liveness_tick_signs_out_stored_invalid
         [of decode_example 100000 "shop_window\<lparr>token_entry := Some ''h.eyJleHAiOjEwMH0.s''\<rparr>"
             "\<lparr>token_state = Some ''h.eyJleHAiOjEwMH0.s'', expiresIn = None\<rparr>"]
       liveness_tick_signs_out_stored_invalid
         [of decode_example 100000 guest_window "\<lparr>token_state = None, expiresIn = None\<rparr>"]
       inv t
  show ?thesis by simp
qed

text \<open>
  The token has disappeared from storage while the component still holds it and the
  cart page is shown: the tick returns at \<^verbatim>\<open>if (!t) return\<close> and nothing is signed out.
\<close>

theorem liveness_tick_ignores_missing_token:
  "liveness_tick decode_example 100000
     (shop_window\<lparr>token_entry := None\<rparr>, \<lparr>token_state = Some ''h.eyJleHAiOjEwMH0.s'', expiresIn = Some 60\<rparr>)
   = (shop_window\<lparr>token_entry := None\<rparr>, \<lparr>token_state = Some ''h.eyJleHAiOjEwMH0.s'', expiresIn = Some 60\<rparr>)
   \<and> url (shop_window\<lparr>token_entry := None\<rparr>) = ''/cart''"
  by (simp add: liveness_tick_def getToken_def truthy_token_def shop_window_def)

section \<open>Properties of the order poll\<close>


lemma poll_tick_unresolved: "\<not> resolved r \<Longrightarrow> poll_tick oid r w = w"
  by (cases w)
     (auto simp: poll_tick_def resolved_def observed_def split: sum.splits option.splits)

lemma resolved_iff:
  "resolved r =
     (\<exists>resp. r = Inr (Some resp)
        \<and> (order_status resp = Some ''PAID'' \<or> order_status resp = Some ''PAYMENT_FAILED''))"
  by (auto simp: resolved_def observed_def split: sum.splits option.splits)

lemma poll_tick_resolved:
  assumes "resolved r"
  shows "fst (poll_tick oid r (b, c)) = clearInterval (pollRef c) b
         \<and> pollRef (snd (poll_tick oid r (b, c))) = None
         \<and> cart (snd (poll_tick oid r (b, c))) = cart c"
  using assms
  by (auto simp: poll_tick_def resolved_iff)

lemma intervals_clearInterval:
  "intervals (clearInterval h b) =
     (case h of None \<Rightarrow> intervals b | Some i \<Rightarrow> removeAll i (intervals b))"
  by (simp add: clearInterval_def split: option.splits)

lemma next_handle_clearInterval: "next_handle (clearInterval h b) = next_handle b"
  by (simp add: clearInterval_def split: option.splits)

lemma poll_run_dead: "h \<notin> set (intervals (fst w)) \<Longrightarrow> poll_run h oid rs w = (0, w)"
  by (cases rs) simp_all

lemma poll_run_unresolved:
  "h \<in> set (intervals (fst w)) \<Longrightarrow> \<forall>r \<in> set rs. \<not> resolved r
     \<Longrightarrow> poll_run h oid rs w = (length rs, w)"
  by (induction rs) (simp_all add: poll_tick_unresolved)

lemma poll_run_count:
  assumes "pollRef c = Some h" "h \<in> set (intervals b)"
  shows "fst (poll_run h oid rs (b, c)) =
           min (length rs) (Suc (length (takeWhile (\<lambda>r. \<not> resolved r) rs)))"
  using assms
proof (induction rs)
  case Nil
  then show ?case by simp
next
  case (Cons r rs)
  show ?case
  proof (cases "resolved r")
    case True
    from poll_tick_resolved [OF True, of oid b c] Cons.prems
    have "h \<notin> set (intervals (fst (poll_tick oid r (b, c))))"
      by (simp add: intervals_clearInterval)
    then have "poll_run h oid rs (poll_tick oid r (b, c)) = (0, poll_tick oid r (b, c))"
      by (rule poll_run_dead)
    with True Cons.prems show ?thesis by simp
  next
    case False
    then have "poll_tick oid r (b, c) = (b, c)"
      by (rule poll_tick_unresolved)
    with False Cons show ?thesis
      by (simp add: split_beta)
  qed
qed

lemma poll_run_stops:
  assumes "pollRef c = Some h" "h \<in> set (intervals b)" "\<exists>r \<in> set rs. resolved r"
  shows "h \<notin> set (intervals (fst (snd (poll_run h oid rs (b, c)))))
         \<and> pollRef (snd (snd (poll_run h oid rs (b, c)))) = None"
  using assms
proof (induction rs)
  case Nil
  then show ?case by simp
next
  case (Cons r rs)
  show ?case
  proof (cases "resolved r")
    case True
    from poll_tick_resolved [OF True, of oid b c] Cons.prems
    have dead: "h \<notin> set (intervals (fst (poll_tick oid r (b, c))))"
      and ref: "pollRef (snd (poll_tick oid r (b, c))) = None"
      by (simp_all add: intervals_clearInterval)
    from dead have "poll_run h oid rs (poll_tick oid r (b, c)) = (0, poll_tick oid r (b, c))"
      by (rule poll_run_dead)
    with dead ref Cons.prems show ?thesis by simp
  next
    case False
    then have same: "poll_tick oid r (b, c) = (b, c)"
      by (rule poll_tick_unresolved)
    from False Cons.prems have "\<exists>r \<in> set rs. resolved r" by auto
    with Cons.IH Cons.prems have "h \<notin> set (intervals (fst (snd (poll_run h oid rs (b, c)))))
         \<and> pollRef (snd (snd (poll_run h oid rs (b, c)))) = None"
      by blast
    with same Cons.prems show ?thesis
      by (simp add: split_beta)
  qed
qed

text \<open>
  C8. Start from a state in which \<^verbatim>\<open>pollRef\<close> holds the handle of the live poll timer, as
  \<^verbatim>\<open>placeOrder\<close> leaves it. For every sequence of outcomes of the successive fetches, the
  number of fetches made is the position of the first outcome whose status is \<^verbatim>\<open>PAID\<close>
  or \<^verbatim>\<open>PAYMENT_FAILED\<close>, or the whole sequence when there is none: the poll goes on for
  \<^verbatim>\<open>PENDING_PAYMENT\<close> and \<^verbatim>\<open>PENDING\<close> and stops exactly at the first of the two final
  statuses, where the timer is disarmed and \<^verbatim>\<open>pollRef\<close> reset. A tick whose fetch throws,
  or whose answer has no status or another status, changes nothing: the timer stays live
  and the page is as before.
\<close>

theorem poll_stops_at_first_resolved:
  assumes ref: "pollRef c = Some h" and live: "h \<in> set (intervals b)"
  shows "fst (poll_run h oid rs (b, c)) =
           min (length rs) (Suc (length (takeWhile (\<lambda>r. \<not> resolved r) rs)))
    \<and> ((\<forall>r \<in> set rs. \<not> resolved r) \<longrightarrow> poll_run h oid rs (b, c) = (length rs, (b, c)))
    \<and> ((\<exists>r \<in> set rs. resolved r) \<longrightarrow>
          h \<notin> set (intervals (fst (snd (poll_run h oid rs (b, c)))))
          \<and> pollRef (snd (snd (poll_run h oid rs (b, c)))) = None)
    \<and> (\<not> resolved r \<longrightarrow> poll_tick oid r (b, c) = (b, c))
    \<and> (resolved r \<longrightarrow> h \<notin> set (intervals (fst (poll_tick oid r (b, c)))))
    \<and> resolved r = (observed r = Some ''PAID'' \<or> observed r = Some ''PAYMENT_FAILED'')
    \<and> (observed r = Some ''PENDING_PAYMENT'' \<or> observed r = Some ''PENDING''
         \<or> observed r = None \<or> isl r \<longrightarrow> \<not> resolved r)"
proof (intro conjI impI)
  show "fst (poll_run h oid rs (b, c)) =
           min (length rs) (Suc (length (takeWhile (\<lambda>r. \<not> resolved r) rs)))"
    using ref live by (rule poll_run_count)
  show "poll_run h oid rs (b, c) = (length rs, (b, c))" if "\<forall>r \<in> set rs. \<not> resolved r"
    using live that by (simp add: poll_run_unresolved)
  show "h \<notin> set (intervals (fst (snd (poll_run h oid rs (b, c)))))"
    if "\<exists>r \<in> set rs. resolved r"
    using poll_run_stops [OF ref live that] by blast
  show "pollRef (snd (snd (poll_run h oid rs (b, c)))) = None"
    if "\<exists>r \<in> set rs. resolved r"
    using poll_run_stops [OF ref live that] by blast
  show "poll_tick oid r (b, c) = (b, c)" if "\<not> resolved r"
    using that by (rule poll_tick_unresolved)
  show "h \<notin> set (intervals (fst (poll_tick oid r (b, c))))" if "resolved r"
    using poll_tick_resolved [OF that, of oid b c] ref
    by (simp add: intervals_clearInterval)
  show "resolved r = (observed r = Some ''PAID'' \<or> observed r = Some ''PAYMENT_FAILED'')"
    by (simp add: resolved_def)
  show "\<not> resolved r"
    if "observed r = Some ''PENDING_PAYMENT'' \<or> observed r = Some ''PENDING''
         \<or> observed r = None \<or> isl r"
    using that by (cases r) (auto simp: resolved_def observed_def)
qed

text \<open>
  The scenario of the specification: two polls answer \<^verbatim>\<open>PENDING\<close>, the third \<^verbatim>\<open>PAID\<close>;
  exactly three fetches are made, whatever a fourth would answer. A pending status, a
  failed fetch and an empty answer leave the poll running and the state as it was.
\<close>

theorem poll_stops_at_first_resolved_witness:
  "fst (poll_run 2 7
          [polled ''PENDING'', polled ''PENDING'', polled ''PAID'', polled ''PENDING'']
          polling) = 3
   \<and> poll_run 2 7 [polled ''PENDING_PAYMENT'', Inl TypeError, Inr None] polling = (3, polling)"
proof -
  have ref: "pollRef (snd polling) = Some 2"
    by (simp add: polling_def)
  have live: "2 \<in> set (intervals (fst polling))"
    by (simp add: polling_def)
  have r: "resolved (polled ''PAID'')" "\<not> resolved (polled ''PENDING'')"
      "\<not> resolved (polled ''PENDING_PAYMENT'')" "\<not> resolved (Inl TypeError)"
      "\<not> resolved (Inr None)"
    by (simp_all add: resolved_def observed_def polled_def)
  from poll_stops_at_first_resolved [OF ref live,
         of 7 "[polled ''PENDING'', polled ''PENDING'', polled ''PAID'', polled ''PENDING'']"]
       poll_stops_at_first_resolved [OF ref live,
         of 7 "[polled ''PENDING_PAYMENT'', Inl TypeError, Inr None]"] r
  show ?thesis by simp
qed

lemma timers_since_clear_ref:
  "set (timers_since base b) \<subseteq> set_option h \<Longrightarrow> timers_since base (clearInterval h b) = []"
  by (cases h) (auto simp: timers_since_def clearInterval_def filter_empty_conv)

lemma poll_inv_poll_tick:
  assumes "poll_inv base w"
  shows "poll_inv base (poll_tick oid r w)"
proof (cases "resolved r")
  case False
  with assms show ?thesis by (simp add: poll_tick_unresolved)
next
  case True
  obtain b c where w: "w = (b, c)" by (cases w)
  obtain b' c' where w': "poll_tick oid r (b, c) = (b', c')" by (cases "poll_tick oid r (b, c)")
  from poll_tick_resolved [OF True, of oid b c] w'
  have b': "b' = clearInterval (pollRef c) b" and c': "pollRef c' = None"
    by simp_all
  from assms w have sub: "set (timers_since base b) \<subseteq> set_option (pollRef c)"
    and base: "0 < base" "base \<le> next_handle b"
    and fresh: "\<forall>h \<in> set (intervals b). h < next_handle b"
    by (simp_all add: poll_inv_def)
  from sub have "timers_since base b' = []"
    unfolding b' by (rule timers_since_clear_ref)
  moreover have "\<forall>h \<in> set (intervals b'). h < next_handle b'"
    using fresh unfolding b'
    by (auto simp: intervals_clearInterval next_handle_clearInterval split: option.splits)
  ultimately show ?thesis
    using base w w' c' by (simp add: poll_inv_def b' next_handle_clearInterval)
qed

lemma poll_inv_placeOrder:
  assumes "poll_inv base w"
  shows "poll_inv base (placeOrder created w)"
proof -
  obtain b c where w: "w = (b, c)" by (cases w)
  from assms w have len: "length (timers_since base b) \<le> 1"
    and sub: "set (timers_since base b) \<subseteq> set_option (pollRef c)"
    and base: "0 < base" "base \<le> next_handle b"
    and fresh: "\<forall>h \<in> set (intervals b). h < next_handle b"
    by (simp_all add: poll_inv_def)
  show ?thesis
  proof (cases "length (cart c) = 0")
    case True
    with assms w show ?thesis
      by (simp add: placeOrder_def poll_inv_def)
  next
    case nonempty: False
    show ?thesis
    proof (cases created)
      case (Inl err)
      with assms w nonempty show ?thesis
        by (simp add: placeOrder_def poll_inv_def)
    next
      case (Inr order)
      define b1 where "b1 = b\<lparr>cart_entry := None\<rparr>"
      define b2 where "b2 = (if truthy_handle (pollRef c) then clearInterval (pollRef c) b1 else b1)"
      have t1: "timers_since base b1 = timers_since base b"
        by (simp add: b1_def timers_since_def)
      have empty: "timers_since base b2 = []"
      proof (cases "truthy_handle (pollRef c)")
        case True
        with sub t1 show ?thesis
          by (simp add: b2_def timers_since_clear_ref)
      next
        case False
        have "h \<notin> set (timers_since base b)" for h
        proof
          assume h: "h \<in> set (timers_since base b)"
          with sub have "pollRef c = Some h" by auto
          with False have "h = 0" by (simp add: truthy_handle_def)
          moreover from h have "base \<le> h" by (simp add: timers_since_def)
          ultimately show False using base by simp
        qed
        then have "timers_since base b = []"
          by (cases "timers_since base b") auto
        with False t1 show ?thesis by (simp add: b2_def)
      qed
      have n2: "next_handle b2 = next_handle b"
        by (simp add: b2_def b1_def next_handle_clearInterval)
      have fresh2: "\<forall>h \<in> set (intervals b2). h < next_handle b"
        using fresh
        by (auto simp: b2_def b1_def intervals_clearInterval split: option.splits)
      have result: "placeOrder created w =
          (b2\<lparr>intervals := intervals b2 @ [next_handle b2], next_handle := Suc (next_handle b2)\<rparr>,
           c\<lparr>lastOrder := Some \<lparr>order_id = order_id order, order_status = order_status order\<rparr>,
             message := Some (order_created_message (order_id order)),
             cart := [], pollRef := Some (next_handle b2), loading := False\<rparr>)"
        using w nonempty Inr
        by (simp add: placeOrder_def Let_def setInterval_def b2_def b1_def)
      have "timers_since base
          (b2\<lparr>intervals := intervals b2 @ [next_handle b2], next_handle := Suc (next_handle b2)\<rparr>)
          = [next_handle b]"
        using empty base n2 by (simp add: timers_since_def)
      then show ?thesis
        using base n2 fresh2 by (auto simp: result poll_inv_def)
    qed
  qed
qed

lemma poll_inv_retry:
  assumes "poll_inv base w"
  shows "poll_inv base (handleRetryFromCart fetched w)"
proof -
  obtain b c where w: "w = (b, c)" by (cases w)
  have "fst (handleRetryFromCart fetched (b, c)) = b
      \<and> pollRef (snd (handleRetryFromCart fetched (b, c))) = pollRef c"
    by (simp add: handleRetryFromCart_def Let_def split: option.splits sum.splits)
  with assms w show ?thesis
    by (cases "handleRetryFromCart fetched (b, c)") (simp add: poll_inv_def)
qed

lemma unmount_timers:
  assumes "poll_inv base (b, c)"
  shows "timers_since base (fst (unmount (b, c))) = []"
proof (cases "truthy_handle (pollRef c)")
  case True
  with assms show ?thesis
    by (simp add: unmount_def poll_inv_def timers_since_clear_ref)
next
  case False
  from assms have sub: "set (timers_since base b) \<subseteq> set_option (pollRef c)" and base: "0 < base"
    by (simp_all add: poll_inv_def)
  have "h \<notin> set (timers_since base b)" for h
  proof
    assume h: "h \<in> set (timers_since base b)"
    with sub have "pollRef c = Some h" by auto
    with False have "h = 0" by (simp add: truthy_handle_def)
    moreover from h have "base \<le> h" by (simp add: timers_since_def)
    ultimately show False using base by simp
  qed
  then have "timers_since base b = []"
    by (cases "timers_since base b") auto
  with False show ?thesis by (simp add: unmount_def)
qed

lemma poll_inv_unmount:
  assumes "poll_inv base w"
  shows "poll_inv base (unmount w)"
proof -
  obtain b c where w: "w = (b, c)" by (cases w)
  from assms w have inv: "poll_inv base (b, c)" by simp
  have t: "timers_since base (fst (unmount (b, c))) = []"
    using inv by (rule unmount_timers)
  have rest: "snd (unmount (b, c)) = c"
      "next_handle (fst (unmount (b, c))) = next_handle b"
      "set (intervals (fst (unmount (b, c)))) \<subseteq> set (intervals b)"
    by (auto simp: unmount_def intervals_clearInterval next_handle_clearInterval
          split: option.splits)
  from inv t rest w show ?thesis
    by (cases "unmount (b, c)") (auto simp: poll_inv_def)
qed

lemma poll_inv_step: "poll_inv base w \<Longrightarrow> poll_inv base (step e w)"
  by (cases e) (simp_all add: poll_inv_placeOrder poll_inv_poll_tick poll_inv_retry poll_inv_unmount)

lemma poll_inv_run: "poll_inv base w \<Longrightarrow> poll_inv base (run evs w)"
  by (induction evs arbitrary: w) (simp_all add: poll_inv_step)

lemma run_append: "run (es @ es') w = run es' (run es w)"
  by (induction es arbitrary: w) simp_all

lemma poll_inv_mount:
  assumes "pollRef c = None" "0 < next_handle b" "\<forall>h \<in> set (intervals b). h < next_handle b"
  shows "poll_inv (next_handle b) (b, c)"
proof -
  from assms(3) have "timers_since (next_handle b) b = []"
    by (auto simp: timers_since_def filter_empty_conv)
  with assms show ?thesis by (simp add: poll_inv_def)
qed

lemma placeOrder_replaces:
  assumes inv: "poll_inv base (b, c)" and nonempty: "cart c \<noteq> []"
  shows "timers_since base (fst (placeOrder (Inr order) (b, c))) = [next_handle b]
    \<and> pollRef (snd (placeOrder (Inr order) (b, c))) = Some (next_handle b)
    \<and> (\<forall>h \<in> set (timers_since base b).
          h \<notin> set (intervals (fst (placeOrder (Inr order) (b, c)))))"
proof -
  from inv have sub: "set (timers_since base b) \<subseteq> set_option (pollRef c)"
    and base: "0 < base" "base \<le> next_handle b"
    and fresh: "\<forall>h \<in> set (intervals b). h < next_handle b"
    by (simp_all add: poll_inv_def)
  define b2 where
    "b2 = (if truthy_handle (pollRef c) then clearInterval (pollRef c) (b\<lparr>cart_entry := None\<rparr>)
           else b\<lparr>cart_entry := None\<rparr>)"
  have n2: "next_handle b2 = next_handle b"
    by (simp add: b2_def next_handle_clearInterval)
  have result: "placeOrder (Inr order) (b, c) =
      (b2\<lparr>intervals := intervals b2 @ [next_handle b], next_handle := Suc (next_handle b)\<rparr>,
       c\<lparr>lastOrder := Some \<lparr>order_id = order_id order, order_status = order_status order\<rparr>,
         message := Some (order_created_message (order_id order)),
         cart := [], pollRef := Some (next_handle b), loading := False\<rparr>)"
    using nonempty
    by (simp add: placeOrder_def Let_def setInterval_def b2_def next_handle_clearInterval)
  have gone: "h \<notin> set (intervals b2)" if h: "h \<in> set (timers_since base b)" for h
  proof -
    from h sub have ref: "pollRef c = Some h" by auto
    from h have "base \<le> h" by (simp add: timers_since_def)
    with base have "h \<noteq> 0" by simp
    with ref have "truthy_handle (pollRef c)" by (simp add: truthy_handle_def)
    with ref show ?thesis by (simp add: b2_def intervals_clearInterval)
  qed
  have older: "h \<noteq> next_handle b" if h: "h \<in> set (timers_since base b)" for h
    using h fresh by (auto simp: timers_since_def)
  have "set (timers_since base b2) \<subseteq> set (timers_since base b)"
    by (auto simp: b2_def timers_since_def intervals_clearInterval split: option.splits)
  with gone have "set (timers_since base b2) = {}"
    by (auto simp: timers_since_def)
  then have "timers_since base b2 = []" by simp
  then have "timers_since base
      (b2\<lparr>intervals := intervals b2 @ [next_handle b], next_handle := Suc (next_handle b)\<rparr>)
      = [next_handle b]"
    using base by (simp add: timers_since_def)
  with gone older show ?thesis
    by (simp add: result)
qed

text \<open>
  C9. A \<^verbatim>\<open>Cart\<close> that mounts with an empty \<^verbatim>\<open>pollRef\<close>, in a window whose live timers
  were all handed out before, satisfies the invariant \<open>poll_inv\<close> for the handle counter
  at its mount. From every state that satisfies the invariant, among them the states in
  which \<^verbatim>\<open>pollRef\<close> holds a live poll timer, every sequence of events of the component
  (orders placed, poll callbacks finishing, even of a timer already disarmed, retries,
  unmount) keeps it: at most one timer armed since the mount is live, and it is the one
  \<^verbatim>\<open>pollRef\<close> holds. Placing an order from a non-empty cart disarms the handle
  \<^verbatim>\<open>pollRef\<close> held when it was live and leaves the newly armed timer, held by
  \<^verbatim>\<open>pollRef\<close>, as the only one; unmounting leaves none.
\<close>

theorem one_live_poll_timer:
  assumes inv: "poll_inv base (b, c)"
  shows "poll_inv base (run evs (b, c))
    \<and> length (timers_since base (fst (run evs (b, c)))) \<le> 1
    \<and> set (timers_since base (fst (run evs (b, c))))
        \<subseteq> set_option (pollRef (snd (run evs (b, c))))
    \<and> (cart c \<noteq> [] \<longrightarrow>
         timers_since base (fst (placeOrder (Inr order) (b, c))) = [next_handle b]
         \<and> pollRef (snd (placeOrder (Inr order) (b, c))) = Some (next_handle b))
    \<and> (cart c \<noteq> [] \<and> pollRef c = Some h \<and> h \<in> set (intervals b) \<and> base \<le> h \<longrightarrow>
         h \<notin> set (intervals (fst (placeOrder (Inr order) (b, c)))))
    \<and> timers_since base (fst (unmount (b, c))) = []
    \<and> (pollRef c = Some h \<and> h \<in> set (intervals b) \<and> base \<le> h \<longrightarrow>
         h \<notin> set (intervals (fst (unmount (b, c)))))
    \<and> (pollRef c0 = None \<and> 0 < next_handle b0
          \<and> (\<forall>i \<in> set (intervals b0). i < next_handle b0) \<longrightarrow>
         poll_inv (next_handle b0) (b0, c0)
         \<and> length (timers_since (next_handle b0) (fst (run evs (b0, c0)))) \<le> 1
         \<and> set (timers_since (next_handle b0) (fst (run evs (b0, c0))))
             \<subseteq> set_option (pollRef (snd (run evs (b0, c0))))
         \<and> timers_since (next_handle b0) (fst (run (evs @ [Unmount]) (b0, c0))) = [])"
proof (intro conjI impI)
  show kept: "poll_inv base (run evs (b, c))"
    using inv by (rule poll_inv_run)
  obtain b' c' where w': "run evs (b, c) = (b', c')" by (cases "run evs (b, c)")
  from kept w' show "length (timers_since base (fst (run evs (b, c)))) \<le> 1"
    by (simp add: poll_inv_def)
  from kept w' show "set (timers_since base (fst (run evs (b, c))))
        \<subseteq> set_option (pollRef (snd (run evs (b, c))))"
    by (simp add: poll_inv_def)
  show "timers_since base (fst (placeOrder (Inr order) (b, c))) = [next_handle b]"
    if "cart c \<noteq> []"
    using placeOrder_replaces [OF inv that] by blast
  show "pollRef (snd (placeOrder (Inr order) (b, c))) = Some (next_handle b)"
    if "cart c \<noteq> []"
    using placeOrder_replaces [OF inv that] by blast
  show "h \<notin> set (intervals (fst (placeOrder (Inr order) (b, c))))"
    if "cart c \<noteq> [] \<and> pollRef c = Some h \<and> h \<in> set (intervals b) \<and> base \<le> h"
  proof -
    from that have "h \<in> set (timers_since base b)"
      by (simp add: timers_since_def)
    with placeOrder_replaces [OF inv, of order] that show ?thesis by blast
  qed
  show gone: "timers_since base (fst (unmount (b, c))) = []"
    using inv by (rule unmount_timers)
  show "h \<notin> set (intervals (fst (unmount (b, c))))"
    if "pollRef c = Some h \<and> h \<in> set (intervals b) \<and> base \<le> h"
  proof
    assume "h \<in> set (intervals (fst (unmount (b, c))))"
    with that have "h \<in> set (timers_since base (fst (unmount (b, c))))"
      by (simp add: timers_since_def)
    with gone show False by simp
  qed
next
  assume mount: "pollRef c0 = None \<and> 0 < next_handle b0
          \<and> (\<forall>i \<in> set (intervals b0). i < next_handle b0)"
  then show inv0: "poll_inv (next_handle b0) (b0, c0)"
    by (simp add: poll_inv_mount)
  obtain b' c' where w': "run evs (b0, c0) = (b', c')" by (cases "run evs (b0, c0)")
  from inv0 have kept: "poll_inv (next_handle b0) (run evs (b0, c0))"
    by (rule poll_inv_run)
  from kept w' show "length (timers_since (next_handle b0) (fst (run evs (b0, c0)))) \<le> 1"
    by (simp add: poll_inv_def)
  from kept w' show "set (timers_since (next_handle b0) (fst (run evs (b0, c0))))
             \<subseteq> set_option (pollRef (snd (run evs (b0, c0))))"
    by (simp add: poll_inv_def)
  from kept w' have "timers_since (next_handle b0) (fst (unmount (b', c'))) = []"
    by (simp add: unmount_timers)
  with w' show "timers_since (next_handle b0) (fst (run (evs @ [Unmount]) (b0, c0))) = []"
    by (simp add: run_append)
qed

text \<open>
  Placing order 7 from the loaded cart page arms timer 2 beside the liveness timer 1.
  With the cart filled again while timer 2 is live, placing order 8 disarms timer 2 and
  arms timer 3, which a \<^verbatim>\<open>PENDING\<close> answer keeps; unmounting while timer 2 is live
  disarms it. The liveness timer stays throughout.
\<close>

lemma placed: "placeOrder (Inr order7) (cart_window, loaded_page) = polling"
  by (simp add: placeOrder_def polling_def cart_window_def loaded_page_def shop_window_def
        fresh_page_def order7_def truthy_handle_def setInterval_def Let_def)

theorem one_live_poll_timer_witness:
  "poll_inv 2 refilled
   \<and> intervals (fst refilled) = [1, 2]
   \<and> pollRef (snd refilled) = Some 2
   \<and> intervals (fst (placeOrder (Inr order8) refilled)) = [1, 3]
   \<and> pollRef (snd (placeOrder (Inr order8) refilled)) = Some 3
   \<and> timers_since 2 (fst (run [PlaceOrder (Inr order8), PollCallback 8 (polled ''PENDING'')]
         refilled)) = [3]
   \<and> intervals (fst (unmount refilled)) = [1]
   \<and> timers_since 2 (fst (run [PlaceOrder (Inr order7)] (cart_window, loaded_page))) = [2]"
proof -
  have r: "refilled =
      (cart_window\<lparr>cart_entry := None, intervals := [1, 2], next_handle := 3\<rparr>,
       loaded_page\<lparr>cart := [mug], message := Some (order_created_message 7),
                   lastOrder := Some order7, pollRef := Some 2\<rparr>)"
    by (simp add: refilled_def polling_def)
  have inv: "poll_inv 2 refilled"
    by (auto simp: r poll_inv_def timers_since_def cart_window_def)
  have before: "intervals (fst refilled) = [1, 2]" "pollRef (snd refilled) = Some 2"
    by (simp_all add: r)
  have again: "placeOrder (Inr order8) refilled =
      (cart_window\<lparr>cart_entry := None, intervals := [1, 3], next_handle := 4\<rparr>,
       loaded_page\<lparr>cart := [], message := Some (order_created_message 8),
                   lastOrder := Some order8, pollRef := Some 3\<rparr>)"
    by (simp add: r placeOrder_def cart_window_def loaded_page_def shop_window_def
          fresh_page_def order8_def truthy_handle_def setInterval_def clearInterval_def Let_def)
  have tick: "poll_tick 8 (polled ''PENDING'') (placeOrder (Inr order8) refilled)
      = placeOrder (Inr order8) refilled"
    by (simp add: again poll_tick_def polled_def)
  have after: "timers_since 2 (fst (placeOrder (Inr order8) refilled)) = [3]"
    by (simp add: again timers_since_def)
  have left: "intervals (fst (unmount refilled)) = [1]"
    by (simp add: r unmount_def truthy_handle_def clearInterval_def)
  have first: "timers_since 2 (fst polling) = [2]"
    by (simp add: polling_def timers_since_def)
  from one_live_poll_timer [OF inv [unfolded r],
         of "[PlaceOrder (Inr order8), PollCallback 8 (polled ''PENDING'')]" order8 2
            loaded_page cart_window]
       inv before again tick after left first placed
  show ?thesis by simp
qed

text \<open>
  The sweep of the order history is no poll of one order: it stays armed while any
  order of the list is pending or failed, and is not armed once all are paid.
\<close>

lemma needsPolling_iff:
  "needsPolling list =
     (\<exists>ord \<in> set list. order_status ord = Some ''PENDING_PAYMENT''
        \<or> order_status ord = Some ''PAYMENT_FAILED'' \<or> order_status ord = Some ''PENDING'')"
  by (auto simp: needsPolling_def list_ex_iff)

end
